theory Spec2Isabelle
  imports Complex_Main
begin

section \<open>The server state\<close>

text \<open>
  The class \<open>Server\<close> keeps one mutable object \<open>state\<close> of type \<open>ServerState\<close>:
  the registered room types, the rooms this process manages, and the ids of those rooms.
  A room type is the object literal \<open>{ name: roomName, handler, options }\<close> that
  \<open>registerRoom\<close> pushes; handler and options are opaque to the server, so they are type
  parameters. Of a \<open>Room\<close> the server reads the field \<open>roomId\<close> only; the rest of the
  class is the extension part of the record.
\<close>

record ('h, 'o) AvaiableRoomType =
  name :: string
  handler :: 'h
  options :: 'o

record Room =
  roomId :: string

record ('h, 'o, 'r) ServerState =
  availableRoomTypes :: "('h, 'o) AvaiableRoomType list"
  managingRooms :: "'r Room_scheme list"
  managingRoomIds :: "string list"

text \<open>The field initialiser of \<open>state\<close>: three empty arrays.\<close>

definition initial_state :: "('h, 'o, 'r) ServerState" where
  "initial_state =
     \<lparr>availableRoomTypes = [], managingRooms = [], managingRoomIds = []\<rparr>"

section \<open>Registering room types\<close>

text \<open>
  \<open>registerRoom\<close> returns early when \<open>availableRoomTypes.map(room => room.name)\<close>
  includes the name, and pushes the new descriptor at the end of the array otherwise.
\<close>

definition registerRoom ::
  "string \<Rightarrow> 'h \<Rightarrow> 'o \<Rightarrow> ('h, 'o, 'r) ServerState \<Rightarrow> ('h, 'o, 'r) ServerState" where
  "registerRoom roomName h opts st =
     (if roomName \<in> set (map name (availableRoomTypes st)) then st
      else st\<lparr>availableRoomTypes :=
                 availableRoomTypes st @ [\<lparr>name = roomName, handler = h, options = opts\<rparr>]\<rparr>)"

text \<open>A sequence of \<open>registerRoom\<close> calls, each given by its three arguments, in order.\<close>

fun registerRooms ::
  "(string \<times> 'h \<times> 'o) list \<Rightarrow> ('h, 'o, 'r) ServerState \<Rightarrow> ('h, 'o, 'r) ServerState" where
  "registerRooms [] st = st"
| "registerRooms ((roomName, h, opts) # calls) st =
     registerRooms calls (registerRoom roomName h opts st)"

text \<open>The descriptor registered under a name, and the first call of a sequence for a name.\<close>

definition registered ::
  "('h, 'o, 'r) ServerState \<Rightarrow> string \<Rightarrow> ('h, 'o) AvaiableRoomType option" where
  "registered st roomName = find (\<lambda>t. name t = roomName) (availableRoomTypes st)"

definition first_call ::
  "(string \<times> 'h \<times> 'o) list \<Rightarrow> string \<Rightarrow> ('h, 'o) AvaiableRoomType option" where
  "first_call calls roomName =
     map_option (\<lambda>(n, h, opts). \<lparr>name = n, handler = h, options = opts\<rparr>)
       (find (\<lambda>c. fst c = roomName) calls)"

section \<open>The managed rooms\<close>

text \<open>
  \<open>onRoomMade\<close> pushes the room and its id; \<open>onRoomDisposed\<close> replaces both arrays by
  their filtered copies.
\<close>

definition onRoomMade ::
  "'r Room_scheme \<Rightarrow> ('h, 'o, 'r) ServerState \<Rightarrow> ('h, 'o, 'r) ServerState" where
  "onRoomMade room st =
     st\<lparr>managingRooms := managingRooms st @ [room],
        managingRoomIds := managingRoomIds st @ [roomId room]\<rparr>"

definition onRoomDisposed ::
  "string \<Rightarrow> ('h, 'o, 'r) ServerState \<Rightarrow> ('h, 'o, 'r) ServerState" where
  "onRoomDisposed rid st =
     st\<lparr>managingRooms := filter (\<lambda>room. roomId room \<noteq> rid) (managingRooms st),
        managingRoomIds := filter (\<lambda>r. r \<noteq> rid) (managingRoomIds st)\<rparr>"

text \<open>
  The two callbacks are handed to the connection handler, which calls them in some order.
  A call sequence is a list of events; \<open>made_once live evs\<close> says that no room is made
  under an id that is live (made and not yet disposed) at that point, starting from the
  live ids \<open>live\<close>.
\<close>

datatype 'r room_event = RoomMade "'r Room_scheme" | RoomDisposed string

fun apply_event :: "'r room_event \<Rightarrow> ('h, 'o, 'r) ServerState \<Rightarrow> ('h, 'o, 'r) ServerState" where
  "apply_event (RoomMade room) st = onRoomMade room st"
| "apply_event (RoomDisposed rid) st = onRoomDisposed rid st"

fun room_events ::
  "'r room_event list \<Rightarrow> ('h, 'o, 'r) ServerState \<Rightarrow> ('h, 'o, 'r) ServerState" where
  "room_events [] st = st"
| "room_events (ev # evs) st = room_events evs (apply_event ev st)"

fun made_once :: "string set \<Rightarrow> 'r room_event list \<Rightarrow> bool" where
  "made_once live [] = True"
| "made_once live (RoomMade room # evs) =
     (roomId room \<notin> live \<and> made_once (insert (roomId room) live) evs)"
| "made_once live (RoomDisposed rid # evs) = made_once (live - {rid}) evs"

text \<open>The number of managed instances that carry a given id.\<close>

definition instances :: "('h, 'o, 'r) ServerState \<Rightarrow> string \<Rightarrow> nat" where
  "instances st rid = length (filter (\<lambda>room. roomId room = rid) (managingRooms st))"

section \<open>JavaScript values\<close>

text \<open>
  The room-message listener decodes its argument with \<open>JSON.parse\<close> and reads properties
  of the result, which is typed by a cast only: any JSON value can arrive. A number is the
  value of a double; \<open>JSON.parse\<close> yields no \<open>NaN\<close>, but the \<open>reason\<close> handed to
  \<open>shutdown\<close> is any value at all. An object is the list of its own properties, each key
  once.
\<close>

datatype number = Finite rat | PosInfinity | NegInfinity | NaN

datatype jsval =
    JUndefined
  | JNull
  | JBool bool
  | JNumber number
  | JString string
  | JArray "jsval list"
  | JObject "(string \<times> jsval) list"

datatype error = SyntaxError | TypeError

text \<open>What \<open>if (v)\<close> and \<open>v && ...\<close> test.\<close>

fun truthy :: "jsval \<Rightarrow> bool" where
  "truthy JUndefined = False"
| "truthy JNull = False"
| "truthy (JBool b) = b"
| "truthy (JNumber n) = (n \<noteq> Finite 0 \<and> n \<noteq> NaN)"
| "truthy (JString s) = (s \<noteq> [])"
| "truthy (JArray vs) = True"
| "truthy (JObject ps) = True"

text \<open>
  The own property of an object under a key, \<open>undefined\<close> when it has none.
\<close>

definition own :: "(string \<times> jsval) list \<Rightarrow> string \<Rightarrow> jsval" where
  "own ps k = (case map_of ps k of None \<Rightarrow> JUndefined | Some v \<Rightarrow> v)"

text \<open>
  The property read \<open>v.k\<close>, for the keys the listener reads (\<open>room\<close>, \<open>client\<close>,
  \<open>action\<close>, \<open>data\<close>): none of them is an index or a property of a built-in prototype,
  so a primitive or an array answers \<open>undefined\<close>; reading a property of \<open>null\<close> or
  \<open>undefined\<close> throws a TypeError.
\<close>

fun read_prop :: "jsval \<Rightarrow> string \<Rightarrow> error + jsval" where
  "read_prop JUndefined k = Inl TypeError"
| "read_prop JNull k = Inl TypeError"
| "read_prop (JObject ps) k = Inr (own ps k)"
| "read_prop v k = Inr JUndefined"

text \<open>
  \<open>managingRoomIds.includes(v)\<close>: the array holds strings, and \<open>includes\<close> compares without
  conversion, so only a string can be found.
\<close>

fun includes_js :: "string list \<Rightarrow> jsval \<Rightarrow> bool" where
  "includes_js ids (JString s) = (s \<in> set ids)"
| "includes_js ids v = False"

text \<open>Sequencing of steps that may throw.\<close>

definition and_then :: "error + 'a \<Rightarrow> ('a \<Rightarrow> error + 'b) \<Rightarrow> error + 'b" where
  "and_then m f = (case m of Inl e \<Rightarrow> Inl e | Inr x \<Rightarrow> f x)"

text \<open>
  \<open>JSON.parse\<close> and \<open>JSON.stringify\<close> belong to the language runtime, not to this
  program: the listener is modelled over any pair of them. \<open>JSON_parse\<close> answers \<open>Inl\<close>
  where \<open>JSON.parse\<close> throws.
\<close>

record runtime =
  JSON_parse :: "string \<Rightarrow> error + jsval"
  JSON_stringify :: "jsval \<Rightarrow> string"

section \<open>The cross-process listeners\<close>

text \<open>
  \<open>spawnPubSub\<close> subscribes two listeners. What a listener does is: calls of
  \<open>Emitter.emit(key, payload)\<close>, recorded in order; possibly an exception that leaves the
  listener; and the server state as the listener leaves it. The emits are recorded, not
  delivered: what the subscribers of the local event system do with them is their own.
\<close>

record ('h, 'o, 'r) handled =
  thrown :: "error option"
  emitted :: "(jsval \<times> string) list"
  server_state :: "('h, 'o, 'r) ServerState"

text \<open>
  The listener on the channel \<open>PLAYER_LEFT\<close>. The constant is imported from
  \<open>constants/PubSubListeners\<close>; the listener is modelled for any value of it.
\<close>

definition spawnPubSub_PLAYER_LEFT ::
  "string \<Rightarrow> ('h, 'o, 'r) ServerState \<Rightarrow> string \<Rightarrow> ('h, 'o, 'r) handled" where
  "spawnPubSub_PLAYER_LEFT PLAYER_LEFT st playerId =
     \<lparr>thrown = None, emitted = [(JString PLAYER_LEFT, playerId)], server_state = st\<rparr>"

text \<open>
  The listener on the channel \<open>InternalActions.newRoomMessage\<close>: first the emits it makes,
  or the exception it throws, in the order of evaluation of the source.
\<close>

definition newRoomMessage_emits ::
  "runtime \<Rightarrow> string list \<Rightarrow> string \<Rightarrow> error + (jsval \<times> string) list" where
  "newRoomMessage_emits rt ids dataAsString =
     and_then (JSON_parse rt dataAsString) (\<lambda>data.
     and_then (read_prop data ''room'') (\<lambda>room.
       if truthy room \<and> includes_js ids room then
         and_then (read_prop data ''room'') (\<lambda>key.
         and_then (read_prop data ''client'') (\<lambda>client.
         and_then (read_prop data ''action'') (\<lambda>action.
         and_then (read_prop data ''data'') (\<lambda>d.
           Inr [(key, JSON_stringify rt
                  (JObject [(''client'', client), (''action'', action), (''data'', d)]))]))))
       else Inr []))"

definition spawnPubSub_newRoomMessage ::
  "runtime \<Rightarrow> ('h, 'o, 'r) ServerState \<Rightarrow> string \<Rightarrow> ('h, 'o, 'r) handled" where
  "spawnPubSub_newRoomMessage rt st dataAsString =
     (case newRoomMessage_emits rt (managingRoomIds st) dataAsString of
        Inl e \<Rightarrow> \<lparr>thrown = Some e, emitted = [], server_state = st\<rparr>
      | Inr es \<Rightarrow> \<lparr>thrown = None, emitted = es, server_state = st\<rparr>)"

text \<open>
  For worked examples: a decoder that agrees with \<open>JSON.parse\<close> on the four texts below
  (an envelope for room \<open>r1\<close>, an envelope whose room is the empty string, an envelope
  without a room, and a text that is not JSON) and an encoder that agrees with
  \<open>JSON.stringify\<close> on the payload built from the first.
\<close>

definition envelope_r1 :: string where
  \<open>envelope_r1 = ''{"client":"p1","room":"r1","action":"say","data":"hi"}''\<close>

definition envelope_empty_room :: string where
  \<open>envelope_empty_room = ''{"client":"p1","room":"","action":"say","data":"hi"}''\<close>

definition envelope_no_room :: string where
  \<open>envelope_no_room = ''{"client":"p1","action":"say","data":"hi"}''\<close>

definition not_json :: string where
  \<open>not_json = ''{"client":''\<close>

definition payload_say_hi :: string where
  \<open>payload_say_hi = ''{"client":"p1","action":"say","data":"hi"}''\<close>

definition example_runtime :: runtime where
  "example_runtime =
     \<lparr>JSON_parse = (\<lambda>s.
        if s = envelope_r1 then
          Inr (JObject [(''client'', JString ''p1''), (''room'', JString ''r1''),
                        (''action'', JString ''say''), (''data'', JString ''hi'')])
        else if s = envelope_empty_room then
          Inr (JObject [(''client'', JString ''p1''), (''room'', JString []),
                        (''action'', JString ''say''), (''data'', JString ''hi'')])
        else if s = envelope_no_room then
          Inr (JObject [(''client'', JString ''p1''),
                        (''action'', JString ''say''), (''data'', JString ''hi'')])
        else Inl SyntaxError),
      JSON_stringify = (\<lambda>v.
        if v = JObject [(''client'', JString ''p1''), (''action'', JString ''say''),
                        (''data'', JString ''hi'')]
        then payload_say_hi else [])\<rparr>"

text \<open>A state that manages one room, \<open>r1\<close>, and one that manages a room whose id is empty.\<close>

definition managing_r1 :: "(unit, unit, unit) ServerState" where
  "managing_r1 = onRoomMade \<lparr>roomId = ''r1''\<rparr> initial_state"

definition managing_empty_id :: "(unit, unit, unit) ServerState" where
  "managing_empty_id = onRoomMade \<lparr>roomId = []\<rparr> initial_state"

section \<open>Shutdown\<close>

text \<open>
  A promise is modelled by how it ends: fulfilled, rejected, or never settled. A call of
  \<open>room.dispose()\<close> either throws, or returns a promise (a returned value that is no
  promise counts as fulfilled for \<open>Promise.all\<close>). What the hook of a room does is
  decided by the class \<open>Room\<close> and the room behaviour behind it, so it is a parameter
  of \<open>shutdown\<close> here: a function from rooms to disposals.
\<close>

datatype promise = Fulfilled | Rejected | Pending

datatype disposal = Throws | Returns promise

text \<open>What the process does, in order, as far as the server code is concerned.\<close>

datatype 'r effect =
    ConsoleLog jsval
  | Dispose "'r Room_scheme"
  | ServerClose
  | ProcessExit int

text \<open>
  How a block of statements ends: it runs to its end, returns, throws, is suspended at an
  \<open>await\<close> that never resumes, or the process has exited.
\<close>

datatype completion = Normal | Return | Throw | Suspended | Terminated int

text \<open>
  \<open>managingRooms.map(room => room.dispose())\<close>: the hooks are called in order; a hook that
  throws ends the \<open>map\<close>, and no array of promises is produced.
\<close>

fun map_dispose ::
  "('r Room_scheme \<Rightarrow> disposal) \<Rightarrow> 'r Room_scheme list \<Rightarrow> 'r effect list \<times> promise list option" where
  "map_dispose d [] = ([], Some [])"
| "map_dispose d (room # rooms) =
     (case d room of
        Throws \<Rightarrow> ([Dispose room], None)
      | Returns p \<Rightarrow>
          (case map_dispose d rooms of (es, ps) \<Rightarrow> (Dispose room # es, map_option ((#) p) ps)))"

text \<open>
  \<open>Promise.all\<close> rejects as soon as one input rejects, is fulfilled once all inputs are,
  and stays pending otherwise.
\<close>

definition Promise_all :: "promise list \<Rightarrow> promise" where
  "Promise_all ps =
     (if Rejected \<in> set ps then Rejected else if Pending \<in> set ps then Pending else Fulfilled)"

fun await :: "promise \<Rightarrow> completion" where
  "await Fulfilled = Normal"
| "await Rejected = Throw"
| "await Pending = Suspended"

text \<open>The \<open>try\<close> block of \<open>shutdown\<close>.\<close>

definition shutdown_try ::
  "('r Room_scheme \<Rightarrow> disposal) \<Rightarrow> 'r Room_scheme list \<Rightarrow> 'r effect list \<times> completion" where
  "shutdown_try d rooms =
     (if length rooms = 0 then ([], Return)
      else (case map_dispose d rooms of
              (es, None) \<Rightarrow> (es, Throw)
            | (es, Some ps) \<Rightarrow> (es, await (Promise_all ps))))"

text \<open>The \<open>catch\<close> block: \<open>catch (e) { return }\<close>.\<close>

definition shutdown_catch :: "completion \<Rightarrow> completion" where
  "shutdown_catch c = (if c = Throw then Return else c)"

text \<open>
  The \<open>finally\<close> block runs when control leaves \<open>try\<close> and \<open>catch\<close>, which a suspended
  \<open>await\<close> never does. \<open>server.close()\<close> stops the listening socket and does not throw;
  \<open>process.exit(0)\<close> does not return.
\<close>

definition shutdown_finally :: "completion \<Rightarrow> 'r effect list \<times> completion" where
  "shutdown_finally c =
     (if c = Suspended then ([], Suspended) else ([ServerClose, ProcessExit 0], Terminated 0))"

text \<open>The statement before the \<open>try\<close>.\<close>

definition shutdown_log :: "string option \<Rightarrow> jsval \<Rightarrow> 'r effect list" where
  "shutdown_log signal reason =
     (if signal = Some ''uncaughtException'' \<and> truthy reason then [ConsoleLog reason] else [])"

record 'r run =
  effects :: "'r effect list"
  completion :: completion

text \<open>
  \<open>shutdown(signal, reason)\<close>; an argument left out is \<open>None\<close>, respectively
  \<open>undefined\<close>.
\<close>

definition shutdown ::
  "string option \<Rightarrow> jsval \<Rightarrow> ('h, 'o, 'r) ServerState \<Rightarrow> ('r Room_scheme \<Rightarrow> disposal) \<Rightarrow> 'r run" where
  "shutdown signal reason st d =
     (case shutdown_try d (managingRooms st) of (es, c) \<Rightarrow>
        (case shutdown_finally (shutdown_catch c) of (fs, c') \<Rightarrow>
           \<lparr>effects = shutdown_log signal reason @ es @ fs, completion = c'\<rparr>))"

text \<open>
  The promise an \<open>async\<close> function returns, from the way its body ends. Once the process
  has exited nothing settles the promise any more.
\<close>

fun async_promise :: "completion \<Rightarrow> promise" where
  "async_promise Normal = Fulfilled"
| "async_promise Return = Fulfilled"
| "async_promise Throw = Rejected"
| "async_promise Suspended = Pending"
| "async_promise (Terminated code) = Pending"

text \<open>
  \<open>p.then(onFulfilled, onRejected)\<close> and \<open>p.catch(onRejected)\<close>. A handler is given by the
  way the promise it produces ends; a handler left out passes the outcome of \<open>p\<close> on.
\<close>

fun promise_then :: "promise option \<Rightarrow> promise option \<Rightarrow> promise \<Rightarrow> promise" where
  "promise_then onFulfilled onRejected Fulfilled =
     (case onFulfilled of None \<Rightarrow> Fulfilled | Some q \<Rightarrow> q)"
| "promise_then onFulfilled onRejected Rejected =
     (case onRejected of None \<Rightarrow> Rejected | Some q \<Rightarrow> q)"
| "promise_then onFulfilled onRejected Pending = Pending"

definition promise_catch :: "promise option \<Rightarrow> promise \<Rightarrow> promise" where
  "promise_catch onRejected p = promise_then None onRejected p"

text \<open>
  A call of an \<open>async\<close> function does not throw to its caller: however the body ends, the
  caller gets a promise.
\<close>

definition async_call :: "completion \<Rightarrow> error + promise" where
  "async_call c = Inr (async_promise c)"

text \<open>
  \<open>gracefullyShutdown\<close> is \<open>this.shutdown().then().catch()\<close>: the call of \<open>shutdown\<close>
  without arguments, then \<open>.then()\<close> and \<open>.catch()\<close>, both without a handler, on the promise
  it returned. The result is an exception thrown to the caller (\<open>Inl\<close>) or the promise
  returned (\<open>Inr\<close>).
\<close>

definition gracefullyShutdown_chain :: "promise \<Rightarrow> promise" where
  "gracefullyShutdown_chain p = promise_catch None (promise_then None None p)"

definition gracefullyShutdown ::
  "('h, 'o, 'r) ServerState \<Rightarrow> ('r Room_scheme \<Rightarrow> disposal) \<Rightarrow> error + promise" where
  "gracefullyShutdown st d =
     and_then (async_call (completion (shutdown None JUndefined st d)))
       (\<lambda>p. Inr (gracefullyShutdown_chain p))"

text \<open>
  For worked examples: three rooms, and hooks that hang for \<open>a\<close>, reject for \<open>b\<close> and are
  fulfilled for every other room.
\<close>

definition room_a :: "unit Room_scheme" where
  "room_a = \<lparr>roomId = ''a''\<rparr>"

definition room_b :: "unit Room_scheme" where
  "room_b = \<lparr>roomId = ''b''\<rparr>"

definition room_c :: "unit Room_scheme" where
  "room_c = \<lparr>roomId = ''c''\<rparr>"

definition example_hooks :: "unit Room_scheme \<Rightarrow> disposal" where
  "example_hooks room =
     (if roomId room = ''a'' then Returns Pending
      else if roomId room = ''b'' then Returns Rejected
      else Returns Fulfilled)"

text \<open>
  A state that manages the room \<open>a\<close> alone, one that manages \<open>c\<close> alone, and one that
  manages all three.
\<close>

definition managing_a :: "(unit, unit, unit) ServerState" where
  "managing_a = onRoomMade room_a initial_state"

definition managing_c :: "(unit, unit, unit) ServerState" where
  "managing_c = onRoomMade room_c initial_state"

definition managing_abc :: "(unit, unit, unit) ServerState" where
  "managing_abc = onRoomMade room_c (onRoomMade room_b (onRoomMade room_a initial_state))"

text \<open>
  The hooks under which the wait of \<open>shutdown\<close> ends: one of them throws or rejects, or
  all of them are fulfilled.
\<close>

definition drains :: "('r Room_scheme \<Rightarrow> disposal) \<Rightarrow> 'r Room_scheme list \<Rightarrow> bool" where
  "drains d rooms =
     ((\<exists>room \<in> set rooms. d room = Throws \<or> d room = Returns Rejected)
      \<or> (\<forall>room \<in> set rooms. d room = Returns Fulfilled))"

section \<open>Registry: the first registration wins\<close>

lemma registerRoom_present:
  "roomName \<in> set (map name (availableRoomTypes st)) \<Longrightarrow> registerRoom roomName h opts st = st"
  by (simp add: registerRoom_def)

lemma registerRoom_distinct:
  "distinct (map name (availableRoomTypes st)) \<Longrightarrow>
   distinct (map name (availableRoomTypes (registerRoom roomName h opts st)))"
  by (simp add: registerRoom_def)

lemma registerRooms_distinct:
  "distinct (map name (availableRoomTypes st)) \<Longrightarrow>
   distinct (map name (availableRoomTypes (registerRooms calls st)))"
proof (induction calls arbitrary: st)
  case Nil
  then show ?case by simp
next
  case (Cons c calls)
  obtain n h opts where c: "c = (n, h, opts)" by (cases c)
  show ?case unfolding c registerRooms.simps
    by (rule Cons.IH) (rule registerRoom_distinct [OF Cons.prems])
qed

lemma find_name_None: "find (\<lambda>t. name t = n) ts = None \<longleftrightarrow> n \<notin> set (map name ts)"
  by (induction ts) auto

lemma find_append_cases:
  "find P (xs @ ys) = (case find P xs of Some x \<Rightarrow> Some x | None \<Rightarrow> find P ys)"
  by (induction xs) auto

lemma registered_registerRoom:
  "registered (registerRoom roomName h opts st) n =
     (case registered st n of
        Some t \<Rightarrow> Some t
      | None \<Rightarrow> if n = roomName then Some \<lparr>name = roomName, handler = h, options = opts\<rparr>
                else None)"
proof (cases "roomName \<in> set (map name (availableRoomTypes st))")
  case True
  then have "registered st roomName \<noteq> None"
    unfolding registered_def using find_name_None [of roomName "availableRoomTypes st"] by simp
  with True show ?thesis
    by (auto simp: registerRoom_def split: option.splits)
next
  case False
  then show ?thesis
    by (auto simp: registerRoom_def registered_def find_append_cases split: option.splits)
qed

lemma registered_registerRooms:
  "registered (registerRooms calls st) n =
     (case registered st n of Some t \<Rightarrow> Some t | None \<Rightarrow> first_call calls n)"
proof (induction calls arbitrary: st)
  case Nil
  then show ?case by (simp add: first_call_def split: option.splits)
next
  case (Cons c calls)
  obtain m h opts where c: "c = (m, h, opts)" by (cases c)
  show ?case
    unfolding c registerRooms.simps Cons.IH registered_registerRoom
    by (simp add: first_call_def split: option.splits)
qed

text \<open>
  C3. A \<open>registerRoom\<close> call whose name is already among \<open>availableRoomTypes\<close> returns the
  state as it was. After any sequence of calls on a fresh server the names in the registry
  are pairwise different, and the descriptor found under a name is the one of the first
  call of the sequence for that name (none when no call named it).
\<close>

theorem registerRoom_first_wins:
  "(roomName \<in> set (map name (availableRoomTypes st)) \<longrightarrow>
      registerRoom roomName h opts st = st)
   \<and> distinct (map name (availableRoomTypes
        (registerRooms calls (initial_state :: ('h, 'o, 'r) ServerState))))
   \<and> registered (registerRooms calls (initial_state :: ('h, 'o, 'r) ServerState)) n
       = first_call calls n"
proof (intro conjI impI)
  assume "roomName \<in> set (map name (availableRoomTypes st))"
  then show "registerRoom roomName h opts st = st" by (rule registerRoom_present)
next
  have "distinct (map name (availableRoomTypes (initial_state :: ('h, 'o, 'r) ServerState)))"
    by (simp add: initial_state_def)
  then show "distinct (map name (availableRoomTypes
        (registerRooms calls (initial_state :: ('h, 'o, 'r) ServerState))))"
    by (rule registerRooms_distinct)
next
  have "registered (initial_state :: ('h, 'o, 'r) ServerState) n = None"
    by (simp add: registered_def initial_state_def)
  then show "registered (registerRooms calls (initial_state :: ('h, 'o, 'r) ServerState)) n
       = first_call calls n"
    by (simp add: registered_registerRooms)
qed

theorem registerRoom_first_wins_witness:
  "''Chat'' \<in> set (map name (availableRoomTypes
       (registerRoom ''Chat'' (1::nat) (10::nat) (initial_state :: (nat, nat, unit) ServerState))))
   \<and> registerRoom ''Chat'' 2 20
         (registerRoom ''Chat'' (1::nat) (10::nat) (initial_state :: (nat, nat, unit) ServerState))
       = registerRoom ''Chat'' 1 10 initial_state
   \<and> registered (registerRooms [(''Chat'', 1::nat, 10::nat), (''Lobby'', 3, 30), (''Chat'', 2, 20)]
                   (initial_state :: (nat, nat, unit) ServerState)) ''Chat''
       = Some \<lparr>name = ''Chat'', handler = 1, options = 10\<rparr>"
  using registerRoom_first_wins
    [of "''Chat''"
        "registerRoom ''Chat'' (1::nat) (10::nat) (initial_state :: (nat, nat, unit) ServerState)"
        2 20 "[(''Chat'', 1::nat, 10::nat), (''Lobby'', 3, 30), (''Chat'', 2, 20)]" "''Chat''"]
  by (simp add: registerRoom_def initial_state_def first_call_def)

section \<open>Managed rooms: the two arrays stay in step\<close>

lemma onRoomMade_parallel:
  "map roomId (managingRooms st) = managingRoomIds st \<Longrightarrow>
   map roomId (managingRooms (onRoomMade room st)) = managingRoomIds (onRoomMade room st)"
  by (simp add: onRoomMade_def)

lemma map_filter_roomId:
  "map roomId (filter (\<lambda>room. roomId room \<noteq> rid) rooms) = filter (\<lambda>r. r \<noteq> rid) (map roomId rooms)"
  by (induction rooms) auto

lemma onRoomDisposed_parallel:
  "map roomId (managingRooms st) = managingRoomIds st \<Longrightarrow>
   map roomId (managingRooms (onRoomDisposed rid st)) = managingRoomIds (onRoomDisposed rid st)"
  by (simp add: onRoomDisposed_def map_filter_roomId)

lemma room_events_invariant:
  "made_once live evs \<Longrightarrow> set (managingRoomIds st) = live \<Longrightarrow>
   distinct (managingRoomIds st) \<Longrightarrow> map roomId (managingRooms st) = managingRoomIds st \<Longrightarrow>
   distinct (managingRoomIds (room_events evs st)) \<and>
   map roomId (managingRooms (room_events evs st)) = managingRoomIds (room_events evs st)"
proof (induction evs arbitrary: live st)
  case Nil
  then show ?case by simp
next
  case (Cons ev evs)
  show ?case
  proof (cases ev)
    case (RoomMade room)
    let ?st = "onRoomMade room st"
    from Cons.prems RoomMade have fresh: "roomId room \<notin> live"
      and rest: "made_once (insert (roomId room) live) evs" by simp_all
    have "set (managingRoomIds ?st) = insert (roomId room) live"
      using Cons.prems(2) by (simp add: onRoomMade_def)
    moreover have "distinct (managingRoomIds ?st)"
      using Cons.prems(2,3) fresh by (simp add: onRoomMade_def)
    moreover have "map roomId (managingRooms ?st) = managingRoomIds ?st"
      using Cons.prems(4) by (rule onRoomMade_parallel)
    ultimately show ?thesis
      using Cons.IH [OF rest] RoomMade by simp
  next
    case (RoomDisposed rid)
    let ?st = "onRoomDisposed rid st"
    from Cons.prems RoomDisposed have rest: "made_once (live - {rid}) evs" by simp
    have "set (managingRoomIds ?st) = live - {rid}"
      using Cons.prems(2) by (auto simp: onRoomDisposed_def)
    moreover have "distinct (managingRoomIds ?st)"
      using Cons.prems(3) by (simp add: onRoomDisposed_def)
    moreover have "map roomId (managingRooms ?st) = managingRoomIds ?st"
      using Cons.prems(4) by (rule onRoomDisposed_parallel)
    ultimately show ?thesis
      using Cons.IH [OF rest] RoomDisposed by simp
  qed
qed

lemma distinct_ids_one_instance:
  "distinct (map roomId rooms) \<Longrightarrow> rid \<in> set (map roomId rooms) \<Longrightarrow>
   length (filter (\<lambda>room. roomId room = rid) rooms) = 1"
proof (induction rooms)
  case Nil
  then show ?case by simp
next
  case (Cons room rooms)
  show ?case
  proof (cases "roomId room = rid")
    case True
    with Cons.prems(1) have "rid \<notin> roomId ` set rooms" by simp
    then have "\<forall>x \<in> set rooms. roomId x \<noteq> rid" by blast
    then have "filter (\<lambda>room. roomId room = rid) rooms = []" by (simp add: filter_empty_conv)
    with True show ?thesis by simp
  next
    case False
    with Cons show ?thesis by auto
  qed
qed

text \<open>
  C5. Start from the fresh server state and let the connection handler call
  \<open>onRoomMade\<close> and \<open>onRoomDisposed\<close> in any order, never making a room under an id that
  is live at that moment. Then every id in \<open>managingRoomIds\<close> has exactly one instance
  with that \<open>roomId\<close> in \<open>managingRooms\<close>, every instance in \<open>managingRooms\<close> has its
  id in \<open>managingRoomIds\<close>, and no id is listed twice.
\<close>

theorem managed_rooms_consistent:
  assumes "made_once {} evs"
    and "st = room_events evs (initial_state :: ('h, 'o, 'r) ServerState)"
  shows "(\<forall>rid \<in> set (managingRoomIds st). instances st rid = 1)
       \<and> (\<forall>room \<in> set (managingRooms st). roomId room \<in> set (managingRoomIds st))
       \<and> distinct (managingRoomIds st)"
proof -
  have inv: "distinct (managingRoomIds st) \<and> map roomId (managingRooms st) = managingRoomIds st"
    unfolding assms(2)
    by (rule room_events_invariant [OF assms(1)]) (simp_all add: initial_state_def)
  then have par: "map roomId (managingRooms st) = managingRoomIds st"
    and dis: "distinct (map roomId (managingRooms st))" by simp_all
  have "instances st rid = 1" if "rid \<in> set (managingRoomIds st)" for rid
    unfolding instances_def using dis that par by (simp add: distinct_ids_one_instance)
  moreover have "roomId room \<in> set (managingRoomIds st)" if "room \<in> set (managingRooms st)" for room
  proof -
    from that have "roomId room \<in> set (map roomId (managingRooms st))" by simp
    then show ?thesis by (simp only: par)
  qed
  ultimately show ?thesis using inv by blast
qed

theorem managed_rooms_consistent_witness:
  "made_once {} [RoomMade \<lparr>roomId = ''a''\<rparr>, RoomMade \<lparr>roomId = ''b''\<rparr>, RoomDisposed ''a'',
                 RoomMade \<lparr>roomId = ''a''\<rparr>]
   \<and> managingRoomIds (room_events
        [RoomMade \<lparr>roomId = ''a''\<rparr>, RoomMade \<lparr>roomId = ''b''\<rparr>, RoomDisposed ''a'',
         RoomMade \<lparr>roomId = ''a''\<rparr>] (initial_state :: (unit, unit, unit) ServerState))
       = [''b'', ''a'']
   \<and> instances (room_events
        [RoomMade \<lparr>roomId = ''a''\<rparr>, RoomMade \<lparr>roomId = ''b''\<rparr>, RoomDisposed ''a'',
         RoomMade \<lparr>roomId = ''a''\<rparr>] (initial_state :: (unit, unit, unit) ServerState)) ''a'' = 1
   \<and> instances (room_events
        [RoomMade \<lparr>roomId = ''a''\<rparr>, RoomMade \<lparr>roomId = ''b''\<rparr>, RoomDisposed ''a'',
         RoomMade \<lparr>roomId = ''a''\<rparr>] (initial_state :: (unit, unit, unit) ServerState)) ''b'' = 1"
proof -
  let ?evs = "[RoomMade \<lparr>roomId = ''a''\<rparr>, RoomMade \<lparr>roomId = ''b''\<rparr>, RoomDisposed ''a'',
               RoomMade \<lparr>roomId = ''a''\<rparr>] :: unit room_event list"
  let ?st = "room_events ?evs (initial_state :: (unit, unit, unit) ServerState)"
  have once: "made_once {} ?evs" by simp
  have ids: "managingRoomIds ?st = [''b'', ''a'']"
    by (simp add: initial_state_def onRoomMade_def onRoomDisposed_def)
  from managed_rooms_consistent [OF once refl, where ?'h = unit and ?'o = unit]
  have "\<forall>rid \<in> set (managingRoomIds ?st). instances ?st rid = 1" by blast
  then have "instances ?st ''a'' = 1" and "instances ?st ''b'' = 1"
    unfolding ids by simp_all
  with once ids show ?thesis by blast
qed

section \<open>Listeners: what is re-emitted\<close>

lemma newRoomMessage_emits_object:
  "JSON_parse rt dataAsString = Inr (JObject ps) \<Longrightarrow>
   newRoomMessage_emits rt ids dataAsString =
     Inr (if truthy (own ps ''room'') \<and> includes_js ids (own ps ''room'')
          then [(own ps ''room'', JSON_stringify rt
                  (JObject [(''client'', own ps ''client''), (''action'', own ps ''action''),
                            (''data'', own ps ''data'')]))]
          else [])"
  by (simp add: newRoomMessage_emits_def and_then_def)

lemma truthy_and_included:
  "truthy v \<and> includes_js ids v \<longleftrightarrow> (\<exists>r. v = JString r \<and> r \<noteq> [] \<and> r \<in> set ids)"
  by (cases v) auto

lemma example_parse_r1:
  "JSON_parse example_runtime envelope_r1 =
     Inr (JObject [(''client'', JString ''p1''), (''room'', JString ''r1''),
                   (''action'', JString ''say''), (''data'', JString ''hi'')])"
  by (simp add: example_runtime_def)

lemma example_parse_empty_room:
  "JSON_parse example_runtime envelope_empty_room =
     Inr (JObject [(''client'', JString ''p1''), (''room'', JString []),
                   (''action'', JString ''say''), (''data'', JString ''hi'')])"
  by (simp add: example_runtime_def envelope_empty_room_def envelope_r1_def)

lemma example_parse_no_room:
  "JSON_parse example_runtime envelope_no_room =
     Inr (JObject [(''client'', JString ''p1''),
                   (''action'', JString ''say''), (''data'', JString ''hi'')])"
  by (simp add: example_runtime_def envelope_empty_room_def envelope_r1_def
      envelope_no_room_def)

lemma example_parse_not_json:
  "JSON_parse example_runtime not_json = Inl SyntaxError"
  by (simp add: example_runtime_def envelope_empty_room_def envelope_r1_def
      envelope_no_room_def not_json_def)

lemma example_stringify_say_hi:
  "JSON_stringify example_runtime
     (JObject [(''client'', JString ''p1''), (''action'', JString ''say''),
               (''data'', JString ''hi'')]) = payload_say_hi"
  by (simp add: example_runtime_def)

lemma managing_r1_ids: "managingRoomIds managing_r1 = [''r1'']"
  by (simp add: managing_r1_def onRoomMade_def initial_state_def)

lemma managing_empty_id_ids: "managingRoomIds managing_empty_id = [[]]"
  by (simp add: managing_empty_id_def onRoomMade_def initial_state_def)

text \<open>
  C7. The listener on \<open>PLAYER_LEFT\<close> emits the player id it received under the key
  \<open>PLAYER_LEFT\<close>, once, whatever the state is; in particular the emit is the same for
  every content of \<open>managingRooms\<close> and \<open>managingRoomIds\<close>. The listener itself throws
  nothing and writes nothing to the state.
\<close>

theorem PLAYER_LEFT_always_emitted:
  "spawnPubSub_PLAYER_LEFT PLAYER_LEFT st playerId =
     \<lparr>thrown = None, emitted = [(JString PLAYER_LEFT, playerId)], server_state = st\<rparr>
   \<and> emitted (spawnPubSub_PLAYER_LEFT PLAYER_LEFT
        (st\<lparr>managingRooms := rooms, managingRoomIds := ids\<rparr>) playerId)
       = [(JString PLAYER_LEFT, playerId)]"
  by (simp add: spawnPubSub_PLAYER_LEFT_def)

text \<open>
  C1, as the code has it. For a text that decodes to an object, the listener emits once,
  under the key \<open>room\<close> and with the encoded \<open>{client, action, data}\<close>, exactly when
  \<open>room\<close> is a non-empty string that is listed in \<open>managingRoomIds\<close>; in every other
  case it emits nothing. The listener itself throws nothing and writes nothing to the
  state.
\<close>

theorem newRoomMessage_emits_iff_owned:
  assumes "JSON_parse rt dataAsString = Inr (JObject ps)"
  shows "spawnPubSub_newRoomMessage rt st dataAsString =
           \<lparr>thrown = None,
            emitted =
              (case own ps ''room'' of
                 JString r \<Rightarrow>
                   if r \<noteq> [] \<and> r \<in> set (managingRoomIds st)
                   then [(JString r, JSON_stringify rt
                           (JObject [(''client'', own ps ''client''),
                                     (''action'', own ps ''action''),
                                     (''data'', own ps ''data'')]))]
                   else []
               | _ \<Rightarrow> []),
            server_state = st\<rparr>
       \<and> (emitted (spawnPubSub_newRoomMessage rt st dataAsString) \<noteq> [] \<longleftrightarrow>
           (\<exists>r. own ps ''room'' = JString r \<and> r \<noteq> [] \<and> r \<in> set (managingRoomIds st)))"
proof
  note emits = newRoomMessage_emits_object [OF assms, of "managingRoomIds st"]
  show "spawnPubSub_newRoomMessage rt st dataAsString =
           \<lparr>thrown = None,
            emitted =
              (case own ps ''room'' of
                 JString r \<Rightarrow>
                   if r \<noteq> [] \<and> r \<in> set (managingRoomIds st)
                   then [(JString r, JSON_stringify rt
                           (JObject [(''client'', own ps ''client''),
                                     (''action'', own ps ''action''),
                                     (''data'', own ps ''data'')]))]
                   else []
               | _ \<Rightarrow> []),
            server_state = st\<rparr>"
    unfolding spawnPubSub_newRoomMessage_def emits
    by (cases "own ps ''room''") simp_all
  show "emitted (spawnPubSub_newRoomMessage rt st dataAsString) \<noteq> [] \<longleftrightarrow>
           (\<exists>r. own ps ''room'' = JString r \<and> r \<noteq> [] \<and> r \<in> set (managingRoomIds st))"
    unfolding spawnPubSub_newRoomMessage_def emits
    using truthy_and_included [of "own ps ''room''" "managingRoomIds st"] by simp
qed

theorem newRoomMessage_emits_iff_owned_witness:
  "JSON_parse example_runtime envelope_r1 =
     Inr (JObject [(''client'', JString ''p1''), (''room'', JString ''r1''),
                   (''action'', JString ''say''), (''data'', JString ''hi'')])
   \<and> spawnPubSub_newRoomMessage example_runtime managing_r1 envelope_r1 =
       \<lparr>thrown = None, emitted = [(JString ''r1'', payload_say_hi)],
        server_state = managing_r1\<rparr>"
  using newRoomMessage_emits_iff_owned [OF example_parse_r1, of managing_r1]
  by (simp add: example_parse_r1 own_def managing_r1_ids example_stringify_say_hi)

theorem newRoomMessage_member_not_emitted:
  "JSON_parse example_runtime envelope_empty_room =
     Inr (JObject [(''client'', JString ''p1''), (''room'', JString []),
                   (''action'', JString ''say''), (''data'', JString ''hi'')])
   \<and> [] \<in> set (managingRoomIds managing_empty_id)
   \<and> emitted (spawnPubSub_newRoomMessage example_runtime managing_empty_id envelope_empty_room)
       = []"
  by (simp add: example_parse_empty_room managing_empty_id_ids spawnPubSub_newRoomMessage_def
      newRoomMessage_emits_def and_then_def own_def)

text \<open>
  C4, as the code has it. For a text that \<open>JSON.parse\<close> rejects, the listener emits nothing
  and leaves the state unchanged, and it does not catch the error: the exception of
  \<open>JSON.parse\<close> leaves the listener.
\<close>

theorem newRoomMessage_undecodable_throws:
  assumes "JSON_parse rt dataAsString = Inl e"
  shows "spawnPubSub_newRoomMessage rt st dataAsString =
           \<lparr>thrown = Some e, emitted = [], server_state = st\<rparr>"
  using assms by (simp add: spawnPubSub_newRoomMessage_def newRoomMessage_emits_def and_then_def)

theorem newRoomMessage_undecodable_throws_witness:
  "JSON_parse example_runtime not_json = Inl SyntaxError
   \<and> spawnPubSub_newRoomMessage example_runtime managing_r1 not_json =
       \<lparr>thrown = Some SyntaxError, emitted = [], server_state = managing_r1\<rparr>"
  using newRoomMessage_undecodable_throws [OF example_parse_not_json, of managing_r1]
  by (simp add: example_parse_not_json)

theorem newRoomMessage_not_json_exception:
  "JSON_parse example_runtime not_json = Inl SyntaxError
   \<and> thrown (spawnPubSub_newRoomMessage example_runtime
               (initial_state :: (unit, unit, unit) ServerState) not_json) \<noteq> None"
  by (simp add: example_parse_not_json spawnPubSub_newRoomMessage_def newRoomMessage_emits_def
      and_then_def)

text \<open>
  C9. When the text decodes and the \<open>room\<close> read from it is falsy (the empty string,
  \<open>null\<close>, \<open>undefined\<close> for a missing property, and also \<open>false\<close> and \<open>0\<close>), the listener
  emits nothing, whatever \<open>managingRoomIds\<close> holds, and the state is unchanged.
\<close>

theorem newRoomMessage_falsy_room_not_emitted:
  assumes "JSON_parse rt dataAsString = Inr data"
    and "read_prop data ''room'' = Inr room"
    and "\<not> truthy room"
  shows "spawnPubSub_newRoomMessage rt st dataAsString =
           \<lparr>thrown = None, emitted = [], server_state = st\<rparr>"
  using assms by (simp add: spawnPubSub_newRoomMessage_def newRoomMessage_emits_def and_then_def)

theorem newRoomMessage_falsy_room_not_emitted_witness:
  "JSON_parse example_runtime envelope_empty_room =
     Inr (JObject [(''client'', JString ''p1''), (''room'', JString []),
                   (''action'', JString ''say''), (''data'', JString ''hi'')])
   \<and> read_prop (JObject [(''client'', JString ''p1''), (''room'', JString []),
                   (''action'', JString ''say''), (''data'', JString ''hi'')]) ''room''
       = Inr (JString [])
   \<and> \<not> truthy (JString [])
   \<and> [] \<in> set (managingRoomIds managing_empty_id)
   \<and> spawnPubSub_newRoomMessage example_runtime managing_empty_id envelope_empty_room =
       \<lparr>thrown = None, emitted = [], server_state = managing_empty_id\<rparr>
   \<and> JSON_parse example_runtime envelope_no_room =
     Inr (JObject [(''client'', JString ''p1''),
                   (''action'', JString ''say''), (''data'', JString ''hi'')])
   \<and> read_prop (JObject [(''client'', JString ''p1''),
                   (''action'', JString ''say''), (''data'', JString ''hi'')]) ''room''
       = Inr JUndefined
   \<and> \<not> truthy JUndefined
   \<and> spawnPubSub_newRoomMessage example_runtime managing_r1 envelope_no_room =
       \<lparr>thrown = None, emitted = [], server_state = managing_r1\<rparr>"
proof -
  have r: "read_prop (JObject [(''client'', JString ''p1''), (''room'', JString []),
                   (''action'', JString ''say''), (''data'', JString ''hi'')]) ''room''
       = Inr (JString [])"
    by (simp add: own_def)
  have f: "\<not> truthy (JString [])" by simp
  have r': "read_prop (JObject [(''client'', JString ''p1''),
                   (''action'', JString ''say''), (''data'', JString ''hi'')]) ''room''
       = Inr JUndefined"
    by (simp add: own_def)
  have f': "\<not> truthy JUndefined" by simp
  note one = newRoomMessage_falsy_room_not_emitted
    [OF example_parse_empty_room r f, of managing_empty_id]
  note two = newRoomMessage_falsy_room_not_emitted
    [OF example_parse_no_room r' f', of managing_r1]
  from one two show ?thesis
    using example_parse_empty_room example_parse_no_room r r' managing_empty_id_ids by simp
qed

section \<open>Shutdown: when it completes\<close>

lemma map_dispose_throws_iff:
  "snd (map_dispose d rooms) = None \<longleftrightarrow> (\<exists>room \<in> set rooms. d room = Throws)"
  by (induction rooms) (auto split: disposal.splits prod.splits)

lemma map_dispose_returns:
  "map_dispose d rooms = (es, Some ps) \<Longrightarrow> es = map Dispose rooms \<and> map d rooms = map Returns ps"
  by (induction rooms arbitrary: es ps) (auto split: disposal.splits prod.splits)

lemma map_dispose_all_called:
  assumes "\<forall>room \<in> set rooms. d room \<noteq> Throws"
  shows "fst (map_dispose d rooms) = map Dispose rooms"
proof -
  from assms have "snd (map_dispose d rooms) \<noteq> None"
    by (simp add: map_dispose_throws_iff)
  then obtain ps where "map_dispose d rooms = (fst (map_dispose d rooms), Some ps)"
    by (cases "map_dispose d rooms") auto
  then show ?thesis using map_dispose_returns by blast
qed

lemma map_dispose_prefix:
  "\<exists>n \<le> length rooms. fst (map_dispose d rooms) = map Dispose (take n rooms)"
proof (induction rooms)
  case Nil
  then show ?case by simp
next
  case (Cons room rooms)
  show ?case
  proof (cases "d room")
    case Throws
    then have "fst (map_dispose d (room # rooms)) = map Dispose (take 1 (room # rooms))"
      by simp
    then show ?thesis by (intro exI [of _ 1]) simp
  next
    case (Returns p)
    from Cons.IH obtain n where n: "n \<le> length rooms"
      and eq: "fst (map_dispose d rooms) = map Dispose (take n rooms)" by blast
    from Returns eq have "fst (map_dispose d (room # rooms)) = map Dispose (take (Suc n) (room # rooms))"
      by (cases "map_dispose d rooms") simp
    with n show ?thesis by (intro exI [of _ "Suc n"]) simp
  qed
qed

lemma Promise_all_pending_iff:
  "Promise_all ps = Pending \<longleftrightarrow> Rejected \<notin> set ps \<and> Pending \<in> set ps"
  by (simp add: Promise_all_def)

lemma await_suspended_iff: "await p = Suspended \<longleftrightarrow> p = Pending"
  by (cases p) simp_all

lemma not_all_fulfilled:
  "(\<exists>p \<in> set ps. p \<noteq> Fulfilled) \<longleftrightarrow> Rejected \<in> set ps \<or> Pending \<in> set ps"
proof
  assume "\<exists>p \<in> set ps. p \<noteq> Fulfilled"
  then obtain p where mem: "p \<in> set ps" and nf: "p \<noteq> Fulfilled" by blast
  have "p = Rejected \<or> p = Pending" using nf by (cases p) simp_all
  with mem show "Rejected \<in> set ps \<or> Pending \<in> set ps" by blast
qed auto

lemma drains_returns:
  assumes "map d rooms = map Returns ps"
  shows "drains d rooms \<longleftrightarrow> Rejected \<in> set ps \<or> (\<forall>p \<in> set ps. p = Fulfilled)"
proof -
  from assms have img: "d ` set rooms = Returns ` set ps"
    by (metis list.set_map)
  have ex: "(\<exists>room \<in> set rooms. d room = x) \<longleftrightarrow> x \<in> Returns ` set ps" for x
    unfolding img [symmetric] by (metis image_iff)
  have "\<not> (\<exists>room \<in> set rooms. d room = Throws)"
    unfolding ex by auto
  moreover have "(\<exists>room \<in> set rooms. d room = Returns Rejected) \<longleftrightarrow> Rejected \<in> set ps"
    unfolding ex by auto
  moreover have "(\<forall>room \<in> set rooms. d room = Returns Fulfilled) \<longleftrightarrow> (\<forall>p \<in> set ps. p = Fulfilled)"
  proof
    assume all: "\<forall>room \<in> set rooms. d room = Returns Fulfilled"
    show "\<forall>p \<in> set ps. p = Fulfilled"
    proof
      fix p assume "p \<in> set ps"
      then have "Returns p \<in> Returns ` set ps" by simp
      then obtain room where "room \<in> set rooms" "d room = Returns p" using ex by blast
      with all show "p = Fulfilled" by auto
    qed
  next
    assume all: "\<forall>p \<in> set ps. p = Fulfilled"
    show "\<forall>room \<in> set rooms. d room = Returns Fulfilled"
    proof
      fix room assume "room \<in> set rooms"
      then have "d room \<in> Returns ` set ps" using ex by blast
      with all show "d room = Returns Fulfilled" by auto
    qed
  qed
  ultimately show ?thesis unfolding drains_def by blast
qed

lemma shutdown_try_suspended_iff:
  "snd (shutdown_try d rooms) = Suspended \<longleftrightarrow> \<not> drains d rooms"
proof (cases "rooms = []")
  case True
  then show ?thesis by (simp add: shutdown_try_def drains_def)
next
  case False
  obtain es r where md: "map_dispose d rooms = (es, r)" by (cases "map_dispose d rooms")
  show ?thesis
  proof (cases r)
    case None
    with md have "\<exists>room \<in> set rooms. d room = Throws"
      using map_dispose_throws_iff [of d rooms] by simp
    then have "drains d rooms" unfolding drains_def by blast
    with False md None show ?thesis by (simp add: shutdown_try_def)
  next
    case (Some ps)
    with md have "map d rooms = map Returns ps" using map_dispose_returns by blast
    then have "drains d rooms \<longleftrightarrow> Rejected \<in> set ps \<or> (\<forall>p \<in> set ps. p = Fulfilled)"
      by (rule drains_returns)
    then have "\<not> drains d rooms \<longleftrightarrow> Rejected \<notin> set ps \<and> Pending \<in> set ps"
      using not_all_fulfilled [of ps] by blast
    with False md Some show ?thesis
      by (simp add: shutdown_try_def await_suspended_iff Promise_all_pending_iff)
  qed
qed

lemma shutdown_try_effects: "fst (shutdown_try d rooms) = fst (map_dispose d rooms)"
  by (cases "map_dispose d rooms") (auto simp: shutdown_try_def split: option.splits)

lemma shutdown_after_try:
  "shutdown_finally (shutdown_catch c) =
     (if c = Suspended then ([], Suspended) else ([ServerClose, ProcessExit 0], Terminated 0))"
  by (simp add: shutdown_finally_def shutdown_catch_def)

lemma shutdown_drains:
  "drains d (managingRooms st) \<Longrightarrow>
   shutdown signal reason st d =
     \<lparr>effects = shutdown_log signal reason @ fst (map_dispose d (managingRooms st))
                 @ [ServerClose, ProcessExit 0],
      completion = Terminated 0\<rparr>"
  using shutdown_try_suspended_iff [of d "managingRooms st"]
    shutdown_try_effects [of d "managingRooms st"]
  by (cases "shutdown_try d (managingRooms st)") (simp add: shutdown_def shutdown_after_try)

lemma shutdown_hangs:
  "\<not> drains d (managingRooms st) \<Longrightarrow>
   shutdown signal reason st d =
     \<lparr>effects = shutdown_log signal reason @ fst (map_dispose d (managingRooms st)),
      completion = Suspended\<rparr>"
  using shutdown_try_suspended_iff [of d "managingRooms st"]
    shutdown_try_effects [of d "managingRooms st"]
  by (cases "shutdown_try d (managingRooms st)") (simp add: shutdown_def shutdown_after_try)

lemma not_drains_no_throw: "\<not> drains d rooms \<Longrightarrow> \<forall>room \<in> set rooms. d room \<noteq> Throws"
  unfolding drains_def by blast

lemma example_rooms:
  "managingRooms managing_a = [room_a]"
  "managingRooms managing_c = [room_c]"
  "managingRooms managing_abc = [room_a, room_b, room_c]"
  by (simp_all add: managing_a_def managing_c_def managing_abc_def onRoomMade_def
      initial_state_def)

lemma example_hooks_simps:
  "example_hooks room_a = Returns Pending"
  "example_hooks room_b = Returns Rejected"
  "example_hooks room_c = Returns Fulfilled"
  by (simp_all add: example_hooks_def room_a_def room_b_def room_c_def)

lemma example_drains:
  "\<not> drains example_hooks [room_a]"
  "drains example_hooks [room_c]"
  "drains example_hooks [room_a, room_b, room_c]"
  by (simp_all add: drains_def example_hooks_simps)

text \<open>
  C2, as the code has it. With at least one managed room, \<open>shutdown\<close> calls the disposal
  hooks of a prefix of \<open>managingRooms\<close> in order, each once: all of them unless one throws.
  It then waits, without a time bound, until one hook has failed or all are fulfilled,
  and in that case closes the server and exits with code 0. When no hook fails and one
  never settles, it stays suspended: the server is not closed and the process does not
  exit.
\<close>

theorem shutdown_waits_without_bound:
  assumes "managingRooms st \<noteq> []"
  shows "(\<exists>n \<le> length (managingRooms st).
            fst (map_dispose d (managingRooms st)) = map Dispose (take n (managingRooms st)))
       \<and> ((\<forall>room \<in> set (managingRooms st). d room \<noteq> Throws) \<longrightarrow>
            fst (map_dispose d (managingRooms st)) = map Dispose (managingRooms st))
       \<and> (drains d (managingRooms st) \<longrightarrow>
            shutdown signal reason st d =
              \<lparr>effects = shutdown_log signal reason @ fst (map_dispose d (managingRooms st))
                          @ [ServerClose, ProcessExit 0],
               completion = Terminated 0\<rparr>)
       \<and> (\<not> drains d (managingRooms st) \<longrightarrow>
            shutdown signal reason st d =
              \<lparr>effects = shutdown_log signal reason @ map Dispose (managingRooms st),
               completion = Suspended\<rparr>)"
proof (intro conjI impI)
  show "\<exists>n \<le> length (managingRooms st).
          fst (map_dispose d (managingRooms st)) = map Dispose (take n (managingRooms st))"
    by (rule map_dispose_prefix)
next
  assume "\<forall>room \<in> set (managingRooms st). d room \<noteq> Throws"
  then show "fst (map_dispose d (managingRooms st)) = map Dispose (managingRooms st)"
    by (rule map_dispose_all_called)
next
  assume "drains d (managingRooms st)"
  then show "shutdown signal reason st d =
      \<lparr>effects = shutdown_log signal reason @ fst (map_dispose d (managingRooms st))
                  @ [ServerClose, ProcessExit 0],
       completion = Terminated 0\<rparr>"
    by (rule shutdown_drains)
next
  assume hang: "\<not> drains d (managingRooms st)"
  then have "fst (map_dispose d (managingRooms st)) = map Dispose (managingRooms st)"
    by (intro map_dispose_all_called not_drains_no_throw)
  with shutdown_hangs [OF hang, of signal reason]
  show "shutdown signal reason st d =
      \<lparr>effects = shutdown_log signal reason @ map Dispose (managingRooms st),
       completion = Suspended\<rparr>"
    by simp
qed

theorem shutdown_waits_without_bound_witness:
  "managingRooms managing_abc \<noteq> []
   \<and> drains example_hooks (managingRooms managing_abc)
   \<and> shutdown (Some ''SIGTERM'') JUndefined managing_abc example_hooks =
       \<lparr>effects = [Dispose room_a, Dispose room_b, Dispose room_c, ServerClose, ProcessExit 0],
        completion = Terminated 0\<rparr>
   \<and> managingRooms managing_a \<noteq> []
   \<and> \<not> drains example_hooks (managingRooms managing_a)
   \<and> shutdown (Some ''SIGTERM'') JUndefined managing_a example_hooks =
       \<lparr>effects = [Dispose room_a], completion = Suspended\<rparr>"
proof -
  have ne: "managingRooms managing_abc \<noteq> []" by (simp add: example_rooms)
  have dr: "drains example_hooks (managingRooms managing_abc)"
    by (simp add: example_rooms example_drains)
  from shutdown_waits_without_bound [OF ne, of example_hooks "Some ''SIGTERM''" JUndefined] dr
  have "shutdown (Some ''SIGTERM'') JUndefined managing_abc example_hooks =
          \<lparr>effects = shutdown_log (Some ''SIGTERM'') JUndefined
                      @ fst (map_dispose example_hooks (managingRooms managing_abc))
                      @ [ServerClose, ProcessExit 0],
           completion = Terminated 0\<rparr>"
    by blast
  then have one: "shutdown (Some ''SIGTERM'') JUndefined managing_abc example_hooks =
       \<lparr>effects = [Dispose room_a, Dispose room_b, Dispose room_c, ServerClose, ProcessExit 0],
        completion = Terminated 0\<rparr>"
    by (simp add: example_rooms example_hooks_simps shutdown_log_def)
  have ne': "managingRooms managing_a \<noteq> []" by (simp add: example_rooms)
  have hang: "\<not> drains example_hooks (managingRooms managing_a)"
    by (simp add: example_rooms example_drains)
  from shutdown_waits_without_bound [OF ne', of example_hooks "Some ''SIGTERM''" JUndefined] hang
  have "shutdown (Some ''SIGTERM'') JUndefined managing_a example_hooks =
          \<lparr>effects = shutdown_log (Some ''SIGTERM'') JUndefined
                      @ map Dispose (managingRooms managing_a),
           completion = Suspended\<rparr>"
    by blast
  then have two: "shutdown (Some ''SIGTERM'') JUndefined managing_a example_hooks =
       \<lparr>effects = [Dispose room_a], completion = Suspended\<rparr>"
    by (simp add: example_rooms shutdown_log_def)
  from ne dr one ne' hang two show ?thesis by blast
qed

theorem shutdown_hung_hook_never_exits:
  "managingRooms managing_a = [room_a]
   \<and> example_hooks room_a = Returns Pending
   \<and> shutdown None JUndefined managing_a example_hooks =
       \<lparr>effects = [Dispose room_a], completion = Suspended\<rparr>"
  by (simp add: example_rooms example_hooks_simps shutdown_def shutdown_try_def
      shutdown_catch_def shutdown_finally_def shutdown_log_def Promise_all_def)

text \<open>
  C6. When the hook of some managed room fails (its promise is rejected, or the call
  itself throws), \<open>shutdown\<close> catches the failure, closes the server and exits with code
  0, whatever the other hooks do. When all hooks are fulfilled, every hook has been called,
  the server is closed and the exit code is 0 as well.
\<close>

theorem shutdown_swallows_disposal_failure:
  "((\<exists>room \<in> set (managingRooms st). d room = Returns Rejected \<or> d room = Throws) \<longrightarrow>
      shutdown signal reason st d =
        \<lparr>effects = shutdown_log signal reason @ fst (map_dispose d (managingRooms st))
                    @ [ServerClose, ProcessExit 0],
         completion = Terminated 0\<rparr>)
   \<and> ((\<forall>room \<in> set (managingRooms st). d room = Returns Fulfilled) \<longrightarrow>
      shutdown signal reason st d =
        \<lparr>effects = shutdown_log signal reason @ map Dispose (managingRooms st)
                    @ [ServerClose, ProcessExit 0],
         completion = Terminated 0\<rparr>)"
proof (intro conjI impI)
  assume "\<exists>room \<in> set (managingRooms st). d room = Returns Rejected \<or> d room = Throws"
  then have "drains d (managingRooms st)" unfolding drains_def by blast
  then show "shutdown signal reason st d =
        \<lparr>effects = shutdown_log signal reason @ fst (map_dispose d (managingRooms st))
                    @ [ServerClose, ProcessExit 0],
         completion = Terminated 0\<rparr>"
    by (rule shutdown_drains)
next
  assume all: "\<forall>room \<in> set (managingRooms st). d room = Returns Fulfilled"
  then have "drains d (managingRooms st)" unfolding drains_def by blast
  moreover from all have "fst (map_dispose d (managingRooms st)) = map Dispose (managingRooms st)"
    by (intro map_dispose_all_called) auto
  ultimately show "shutdown signal reason st d =
        \<lparr>effects = shutdown_log signal reason @ map Dispose (managingRooms st)
                    @ [ServerClose, ProcessExit 0],
         completion = Terminated 0\<rparr>"
    using shutdown_drains [of d st signal reason] by simp
qed

theorem shutdown_swallows_disposal_failure_witness:
  "example_hooks room_b = Returns Rejected
   \<and> room_b \<in> set (managingRooms managing_abc)
   \<and> shutdown None JUndefined managing_abc example_hooks =
       \<lparr>effects = [Dispose room_a, Dispose room_b, Dispose room_c, ServerClose, ProcessExit 0],
        completion = Terminated 0\<rparr>
   \<and> example_hooks room_c = Returns Fulfilled
   \<and> managingRooms managing_c = [room_c]
   \<and> shutdown None JUndefined managing_c example_hooks =
       \<lparr>effects = [Dispose room_c, ServerClose, ProcessExit 0], completion = Terminated 0\<rparr>"
proof -
  have fails: "\<exists>room \<in> set (managingRooms managing_abc).
      example_hooks room = Returns Rejected \<or> example_hooks room = Throws"
    by (simp add: example_rooms example_hooks_simps)
  have clean: "\<forall>room \<in> set (managingRooms managing_c). example_hooks room = Returns Fulfilled"
    by (simp add: example_rooms example_hooks_simps)
  from shutdown_swallows_disposal_failure [of managing_abc example_hooks None JUndefined] fails
  have "shutdown None JUndefined managing_abc example_hooks =
        \<lparr>effects = shutdown_log None JUndefined
                    @ fst (map_dispose example_hooks (managingRooms managing_abc))
                    @ [ServerClose, ProcessExit 0],
         completion = Terminated 0\<rparr>"
    by blast
  then have one: "shutdown None JUndefined managing_abc example_hooks =
       \<lparr>effects = [Dispose room_a, Dispose room_b, Dispose room_c, ServerClose, ProcessExit 0],
        completion = Terminated 0\<rparr>"
    by (simp add: example_rooms example_hooks_simps shutdown_log_def)
  from shutdown_swallows_disposal_failure [of managing_c example_hooks None JUndefined] clean
  have "shutdown None JUndefined managing_c example_hooks =
        \<lparr>effects = shutdown_log None JUndefined @ map Dispose (managingRooms managing_c)
                    @ [ServerClose, ProcessExit 0],
         completion = Terminated 0\<rparr>"
    by blast
  then have two: "shutdown None JUndefined managing_c example_hooks =
       \<lparr>effects = [Dispose room_c, ServerClose, ProcessExit 0], completion = Terminated 0\<rparr>"
    by (simp add: example_rooms shutdown_log_def)
  from one two show ?thesis by (simp add: example_rooms example_hooks_simps)
qed

text \<open>
  C8. When \<open>managingRooms\<close> is empty, \<open>shutdown\<close> calls no disposal hook: after the
  optional log line it closes the server and exits with code 0.
\<close>

theorem shutdown_empty_immediate:
  assumes "length (managingRooms st) = 0"
  shows "shutdown signal reason st d =
           \<lparr>effects = shutdown_log signal reason @ [ServerClose, ProcessExit 0],
            completion = Terminated 0\<rparr>
       \<and> (\<forall>room. Dispose room \<notin> set (effects (shutdown signal reason st d)))"
  using assms
  by (auto simp: shutdown_def shutdown_try_def shutdown_catch_def shutdown_finally_def
      shutdown_log_def)

theorem shutdown_empty_immediate_witness:
  "length (managingRooms (initial_state :: (unit, unit, unit) ServerState)) = 0
   \<and> shutdown (Some ''SIGTERM'') JUndefined (initial_state :: (unit, unit, unit) ServerState)
       example_hooks =
       \<lparr>effects = [ServerClose, ProcessExit 0], completion = Terminated 0\<rparr>"
proof -
  have e: "length (managingRooms (initial_state :: (unit, unit, unit) ServerState)) = 0"
    by (simp add: initial_state_def)
  from shutdown_empty_immediate [OF e, of "Some ''SIGTERM''" JUndefined example_hooks] e
  show ?thesis by (simp add: shutdown_log_def)
qed

lemma shutdown_promise_pending:
  "async_promise (completion (shutdown signal reason st d)) = Pending"
proof (cases "drains d (managingRooms st)")
  case True
  then show ?thesis by (simp add: shutdown_drains)
next
  case False
  then show ?thesis by (simp add: shutdown_hangs)
qed

lemma gracefullyShutdown_chain_pending: "gracefullyShutdown_chain Pending = Pending"
  by (simp add: gracefullyShutdown_chain_def promise_catch_def)

text \<open>
  C10. For every server state, and whatever the disposal hooks of the managed rooms do
  (be fulfilled, reject, throw, never settle), the call of \<open>gracefullyShutdown\<close> throws
  nothing and the promise it returns is not rejected. The failures of the hooks are caught
  inside \<open>shutdown\<close>, whose own promise is never rejected: it stays pending, since
  \<open>shutdown\<close> either is suspended at its \<open>await\<close> or has ended the process.
\<close>

theorem gracefullyShutdown_never_rejects:
  "(\<forall>e. gracefullyShutdown st d \<noteq> Inl e)
   \<and> gracefullyShutdown st d \<noteq> Inr Rejected
   \<and> gracefullyShutdown st d = Inr Pending"
proof -
  have "gracefullyShutdown st d = Inr Pending"
    by (simp add: gracefullyShutdown_def async_call_def and_then_def shutdown_promise_pending
        gracefullyShutdown_chain_pending)
  then show ?thesis by simp
qed

theorem gracefullyShutdown_never_rejects_witness:
  "example_hooks room_b = Returns Rejected
   \<and> managingRooms managing_abc = [room_a, room_b, room_c]
   \<and> gracefullyShutdown managing_abc example_hooks = Inr Pending
   \<and> gracefullyShutdown managing_abc (\<lambda>room. Throws) = Inr Pending"
  using gracefullyShutdown_never_rejects [of managing_abc example_hooks]
    gracefullyShutdown_never_rejects [of managing_abc "\<lambda>room. Throws"]
  by (simp add: example_rooms example_hooks_simps)

end
